theory Spec2Isabelle
  imports Main "HOL-Library.Word" "HOL-Library.Sublist"
begin

unbundle bit_operations_syntax

section \<open>An ESC/POS command encoder: the embedding\<close>

text \<open>
  The encoder is the TypeScript module with the functions \<open>byteSplit\<close>, \<open>cut\<close>,
  \<open>selectCharacterSize\<close>, ... (one function per printer command) and the barcode module
  \<open>barcodes.ts\<close>. Every function is pure apart from \<open>cut\<close>, which writes one line to the
  console. The embedding follows the code as it runs:

  \<^item> a JavaScript number is an \<open>int\<close>: the claims are about integers, and non-integral
    numbers and NaN are not modelled;
  \<^item> a failed \<open>assert(e)\<close> of \<open>node:assert\<close> is the value \<open>Inl (AssertionError e)\<close>, with the
    asserted expression as its text; a result is \<open>error + 'a\<close>;
  \<^item> a parameter with a default value is an \<open>option\<close>: \<open>None\<close> is the absent argument;
  \<^item> a symbolic name (\<open>'left'\<close>, \<open>'A'\<close>, \<open>'usa'\<close>) is the string that reaches the function
    at run time; the TypeScript union types are erased by compilation, so a name outside
    the union is a possible input of the compiled function. Names are only compared for
    equality, so they are modelled as \<open>string\<close>;
  \<^item> a barcode payload is a list of UTF-16 code units (\<open>16 word\<close>), which is what
    \<open>length\<close>, \<open>split('')\<close> and \<open>charCodeAt\<close> of a JavaScript string work on.
\<close>

subsection \<open>Values, errors, defaults\<close>

datatype error = AssertionError string | TypeError string | Error string

text \<open>The value of a table lookup \<open>map[key]\<close>: a number, or \<open>undefined\<close> for a missing key.\<close>

datatype jsval = Num int | Undefined

definition js_assert :: "bool \<Rightarrow> string \<Rightarrow> error + 'a \<Rightarrow> error + 'a" where
  "js_assert c expr rest = (if c then rest else Inl (AssertionError expr))"

definition dflt :: "'a \<Rightarrow> 'a option \<Rightarrow> 'a" where
  "dflt d arg = (case arg of None \<Rightarrow> d | Some v \<Rightarrow> v)"

type_synonym js_string = "16 word list"

text \<open>The code units of an ASCII literal, to write payloads down.\<close>

definition utf16 :: "string \<Rightarrow> js_string" where
  "utf16 s = map of_char s"

subsection \<open>JavaScript's integer operators\<close>

text \<open>
  \<open>a % b\<close> takes the sign of the dividend. \<open>a << k\<close> and \<open>a & b\<close> work on the operands
  converted to 32-bit two's complement (\<open>undefined\<close> converts to 0).
\<close>

definition js_rem :: "int \<Rightarrow> int \<Rightarrow> int" where
  "js_rem a b = sgn a * (\<bar>a\<bar> mod \<bar>b\<bar>)"

definition ToInt32 :: "jsval \<Rightarrow> int" where
  "ToInt32 v = (case v of Num n \<Rightarrow> signed_take_bit 31 n | Undefined \<Rightarrow> 0)"

definition js_shl :: "int \<Rightarrow> nat \<Rightarrow> int" where
  "js_shl a k = signed_take_bit 31 (push_bit (k mod 32) a)"

definition js_and :: "jsval \<Rightarrow> jsval \<Rightarrow> int" where
  "js_and a b = ToInt32 a AND ToInt32 b"

text \<open>\<open>Math.ceil(a / b)\<close> for integers \<open>a\<close> and \<open>b > 0\<close>.\<close>

definition ceil_div :: "int \<Rightarrow> int \<Rightarrow> int" where
  "ceil_div a b = - ((- a) div b)"

subsection \<open>Control bytes and tables\<close>

definition LF :: int where [simp]: "LF = 0x0a"
definition ESC :: int where [simp]: "ESC = 0x1b"
definition FS :: int where [simp]: "FS = 0x1c"
definition GS :: int where [simp]: "GS = 0x1d"

text \<open>The constant \<open>k\<close> of \<open>barcodes.ts\<close> (renamed: a one-letter constant would capture variables).\<close>

definition k_byte :: int where [simp]: "k_byte = 0x6b"

definition fontMap :: "(string \<times> int) list" where
  "fontMap = [(''A'', 0), (''B'', 1)]"

text \<open>
  \<open>map[key]\<close> on an object literal: the value of the own property, \<open>undefined\<close> when the
  literal has no such key (properties inherited from \<open>Object.prototype\<close> are not modelled).
\<close>

definition js_get :: "(string \<times> int) list \<Rightarrow> string \<Rightarrow> jsval" where
  "js_get m key = (case map_of m key of Some v \<Rightarrow> Num v | None \<Rightarrow> Undefined)"

text \<open>\<open>Array.prototype.indexOf\<close>: the first index of the element, or \<open>-1\<close>.\<close>

fun indexOf_from :: "'a list \<Rightarrow> 'a \<Rightarrow> int \<Rightarrow> int" where
  "indexOf_from [] x i = -1"
| "indexOf_from (y # ys) x i = (if y = x then i else indexOf_from ys x (i + 1))"

definition indexOf :: "'a list \<Rightarrow> 'a \<Rightarrow> int" where
  "indexOf xs x = indexOf_from xs x 0"

text \<open>\<open>String.prototype.includes\<close>: the argument occurs as a contiguous substring.\<close>

definition str_includes :: "string \<Rightarrow> string \<Rightarrow> bool" where
  "str_includes s t = sublist t s"

subsection \<open>The numeric codec\<close>

definition byteSplit :: "int \<Rightarrow> error + int list" where
  "byteSplit n =
     js_assert (n \<ge> 0) ''n >= 0'' (
     js_assert (n \<le> 65535) ''n <= 65535'' (
       let highByte = n div 256;
           lowByte = js_rem n 256
       in Inr [lowByte, highByte]))"

text \<open>
  An array literal with a spread \<open>[a, b, ...byteSplit(v), ...rest]\<close>: the exception of the
  spread call leaves the function, otherwise its bytes are spliced in.
\<close>

definition spread :: "int list \<Rightarrow> error + int list \<Rightarrow> int list \<Rightarrow> error + int list" where
  "spread pre r post = (case r of Inl e \<Rightarrow> Inl e | Inr bs \<Rightarrow> Inr (pre @ bs @ post))"

subsection \<open>Command encoders\<close>

definition setRightSideCharacterSpacing :: "int option \<Rightarrow> error + int list" where
  "setRightSideCharacterSpacing arg =
     (let n = dflt 0 arg in
      js_assert (n > 0 \<and> n \<le> 255) ''n > 0 && n <= 255'' (
        Inr [ESC, 0x20, n]))"

definition selectPrintModes ::
  "string \<Rightarrow> bool option \<Rightarrow> bool option \<Rightarrow> bool option \<Rightarrow> bool option \<Rightarrow> error + int list" where
  "selectPrintModes font emphasised_arg doubleHeight_arg doubleWidth_arg underline_arg =
     (let emphasised = dflt False emphasised_arg;
          doubleHeight = dflt False doubleHeight_arg;
          doubleWidth = dflt False doubleWidth_arg;
          underline = dflt False underline_arg;
          n0 = 0;
          n1 = js_and (Num n0) (js_get fontMap font);
          n2 = js_and (Num n1) (Num (js_shl (of_bool emphasised) 3));
          n3 = js_and (Num n2) (Num (js_shl (of_bool doubleHeight) 4));
          n4 = js_and (Num n3) (Num (js_shl (of_bool doubleWidth) 5));
          n5 = js_and (Num n4) (Num (js_shl (of_bool underline) 7))
      in Inr [ESC, 0x20, n5])"

definition selectBitImageMode :: "int option \<Rightarrow> string option \<Rightarrow> int list \<Rightarrow> error + int list" where
  "selectBitImageMode verticalDensity_arg horizontalDensity_arg data =
     (let verticalDensity = dflt 8 verticalDensity_arg;
          horizontalDensity = dflt ''single'' horizontalDensity_arg
      in
      js_assert (verticalDensity = 8 \<or> verticalDensity = 24)
        ''verticalDensity == 8 || verticalDensity == 24'' (
      js_assert True ''Array.isArray(data)'' (
      (if verticalDensity = 24
       then js_assert (js_rem (int (length data)) 3 = 0) ''data.length % 3 == 0''
       else id) (
        let val = int (length data) div (if verticalDensity = 8 then 1 else 3);
            m = (if verticalDensity = 8 then 0 else 32)
              + (if horizontalDensity = ''single'' then 0 else 1)
        in spread [ESC, 0x2a, m] (byteSplit val) data))))"

definition selectFont :: "string \<Rightarrow> error + jsval list" where
  "selectFont font = Inr [Num ESC, Num 0x4d, js_get fontMap font]"

definition internationalCharacterSetMap :: "(string \<times> int) list" where
  "internationalCharacterSetMap =
     [(''usa'', 0), (''france'', 1), (''germany'', 2), (''uk'', 3), (''denmark-1'', 4),
      (''sweden'', 5), (''italy'', 6), (''spain-1'', 7), (''japan'', 8), (''norway'', 9),
      (''denmark-2'', 10), (''spain-2'', 11), (''latin-america'', 12), (''korea'', 13),
      (''slovenia-croatia'', 14), (''china'', 15)]"

definition selectInternationalCharacterSet :: "string \<Rightarrow> error + jsval list" where
  "selectInternationalCharacterSet characterSet =
     Inr [Num ESC, Num 0x52, js_get internationalCharacterSetMap characterSet]"

definition setRelativePrintPosition :: "int \<Rightarrow> error + int list" where
  "setRelativePrintPosition d =
     js_assert (d \<ge> -32768) ''d >= -32768'' (
     js_assert (d \<le> 32767) ''d <= 32767'' (
       let normalised = d + 32768
       in spread [ESC, 0x5C] (byteSplit normalised) []))"

definition selectJustification :: "string option \<Rightarrow> error + int list" where
  "selectJustification arg =
     (let justification = dflt ''left'' arg;
          justifications = [''left'', ''centered'', ''right'']
      in
      js_assert (str_includes justification justification)
        ''justification.includes(justification)'' (
        let val = indexOf justifications justification
        in Inr [ESC, 0x61, val]))"

definition characterCodeTableMap :: "(string \<times> int) list" where
  "characterCodeTableMap =
     [(''pc437-usa-standard-europe'', 0), (''katakana'', 1), (''pc850-multilingual'', 2),
      (''pc860-portuguese'', 3), (''pc863-canadian-french'', 4), (''pc865-nordic'', 5),
      (''wpc1252'', 16), (''pc866-cyrillic-2'', 17), (''pc852-latin-2'', 18),
      (''pc858-euro'', 19), (''page-255'', 255)]"

definition selectCharacterCodeTable :: "string \<Rightarrow> error + jsval list" where
  "selectCharacterCodeTable table = Inr [Num ESC, Num 0x74, js_get characterCodeTableMap table]"

definition selectCharacterSize :: "int option \<Rightarrow> int option \<Rightarrow> error + int list" where
  "selectCharacterSize width_arg height_arg =
     (let width = dflt 1 width_arg;
          height = dflt 1 height_arg
      in
      js_assert (width \<ge> 1) ''width >= 1'' (
      js_assert (width \<le> 8) ''width <= 8'' (
      js_assert (height \<ge> 1) ''height >= 1'' (
      js_assert (height \<le> 8) ''height <= 8'' (
        let widthValue = 16 * (width - 1);
            heightValue = 16 * (height - 1);
            n = js_shl widthValue 4 + heightValue
        in Inr [GS, 0x21, n])))))"

definition hriPositionMap :: "(string \<times> int) list" where
  "hriPositionMap = [(''none'', 0), (''above'', 1), (''below'', 2), (''both'', 3)]"

definition selectPrintPositionOfBarcodeHriCharacters :: "string \<Rightarrow> error + jsval list" where
  "selectPrintPositionOfBarcodeHriCharacters position =
     Inr [Num GS, Num 0x48, js_get hriPositionMap position]"

text \<open>
  \<open>cut\<close> returns its bytes and, on the default path, writes a line to the console: the
  second component is the list of lines written.
\<close>

definition cut :: "int option \<Rightarrow> (error + int list) \<times> string list" where
  "cut arg =
     (let feedVertical = dflt 0 arg in
      if \<not> feedVertical \<ge> 0 then (Inl (AssertionError ''feedVertical >= 0''), [])
      else if \<not> feedVertical \<le> 255 then (Inl (AssertionError ''feedVertical <= 255''), [])
      else if feedVertical > 0 then (Inr [GS, 0x56, 65, feedVertical], [])
      else (Inr [GS, 0x56, 1], [''check if this is doing a full cut or partial'']))"

definition setRelativeVerticalPrintPositionInPageMode :: "int \<Rightarrow> error + int list" where
  "setRelativeVerticalPrintPositionInPageMode d =
     js_assert (d \<ge> -32768) ''d >= -32768'' (
     js_assert (d \<le> 32767) ''d <= 32767'' (
       let normalised = d + 32768
       in spread [GS, 0x5C] (byteSplit normalised) []))"

definition selectFontForBarcodeHriCharacters :: "string \<Rightarrow> error + jsval list" where
  "selectFontForBarcodeHriCharacters font = Inr [Num GS, Num 0x66, js_get fontMap font]"

subsection \<open>The barcode encoder\<close>

definition splitToCharCodes :: "js_string \<Rightarrow> int list" where
  "splitToCharCodes s = map uint s"

definition printBarcodeUpcA :: "js_string \<Rightarrow> error + int list" where
  "printBarcodeUpcA data =
     js_assert (length data = 11) ''data.length == 11'' (
       let codes = splitToCharCodes data in
       js_assert (list_all (\<lambda>charCode. charCode \<ge> 48 \<and> charCode \<le> 57) codes)
         ''codes.every(charCode => charCode >= 48 && charCode <= 57)'' (
         Inr ([GS, k_byte, 65, int (length codes)] @ codes)))"

subsection \<open>The raster image encoder\<close>

text \<open>
  The pieces of the expression
  \<open>row.slice(i, i + 8).map(x => x ? 1 : 0).join('').padEnd(8, '0')\<close> and of
  \<open>parseInt(binary, 2)\<close>. A pixel is a number, truthy when it is not 0. \<open>join_bits\<close> is
  \<open>join('')\<close> on an array of the numbers 0 and 1; \<open>parseInt2\<close> reads the leading binary
  digits of a string (here the string always has eight of them, so NaN does not arise).
\<close>

definition slice :: "'a list \<Rightarrow> nat \<Rightarrow> nat \<Rightarrow> 'a list" where
  "slice xs i j = take (j - i) (drop i xs)"

definition join_bits :: "int list \<Rightarrow> string" where
  "join_bits xs = concat (map (\<lambda>b. if b = 1 then ''1'' else ''0'') xs)"

definition padEnd :: "nat \<Rightarrow> char \<Rightarrow> string \<Rightarrow> string" where
  "padEnd n c s = s @ replicate (n - length s) c"

definition parseInt2 :: "string \<Rightarrow> int" where
  "parseInt2 s =
     foldl (\<lambda>acc c. 2 * acc + (if c = CHR ''1'' then 1 else 0)) 0
       (takeWhile (\<lambda>c. c = CHR ''0'' \<or> c = CHR ''1'') s)"

text \<open>
  The inner loop \<open>for (let i = 0; i < row.length; i += 8) { ...; a.push(n) }\<close> on the
  shared output array \<open>a\<close>, and the outer loop over the rows.
\<close>

function row_loop :: "int list \<Rightarrow> nat \<Rightarrow> int list \<Rightarrow> int list" where
  "row_loop row i a =
     (if i < length row then
        (let binary = padEnd 8 (CHR ''0'')
                        (join_bits (map (\<lambda>x. if x \<noteq> 0 then 1 else 0) (slice row i (i + 8))));
             n = parseInt2 binary
         in row_loop row (i + 8) (a @ [n]))
      else a)"
  by pat_completeness auto
termination
  by (relation "measure (\<lambda>(row, i, a). length row - i)") auto

declare row_loop.simps [simp del]

definition pack_rows :: "int list list \<Rightarrow> int list" where
  "pack_rows data = foldl (\<lambda>a row. row_loop row 0 a) [] data"

text \<open>
  \<open>data[0]\<close> is read after \<open>assert(data.length >= 1)\<close>, so it exists wherever it is read;
  the model keeps the TypeError that the read of \<open>.length\<close> on \<open>undefined\<close> would be. The
  final \<open>if (!data[0]) throw new Error(...)\<close> cannot fire after the assertions (an array is
  truthy) and has no branch here.
\<close>

definition printRasterBitImage ::
  "int list list \<Rightarrow> int option \<Rightarrow> int option \<Rightarrow> error + int list" where
  "printRasterBitImage data verticalScale_arg horizontalScale_arg =
     (let verticalScale = dflt 1 verticalScale_arg;
          horizontalScale = dflt 1 horizontalScale_arg
      in
      js_assert (length data \<ge> 1) ''data.length >= 1'' (
      js_assert (length data < 65536) ''data.length < 65536'' (
      case data of
        [] \<Rightarrow> Inl (TypeError ''data[0] is undefined'')
      | data0 # _ \<Rightarrow>
      js_assert (length data0 \<ge> 1) ''data[0]!.length >= 1'' (
      js_assert (length data0 < 65536) ''data[0]!.length < 65536'' (
      js_assert (list_all (\<lambda>line. length line = length data0) data)
        ''data.every(line => data[0] && line.length == data[0].length)'' (
        let widthInBytes = ceil_div (int (length data0)) 8;
            heightInDots = int (length data);
            m = ((verticalScale - 1) * 2) + (horizontalScale - 1);
            a = pack_rows data
        in case byteSplit widthInBytes of
             Inl e \<Rightarrow> Inl e
           | Inr w \<Rightarrow> spread ([GS, 0x76, 0x30, m] @ w) (byteSplit heightInDots) a))))))"

text \<open>
  The packing in the specification's words: byte \<open>j\<close> of a row holds the pixels
  \<open>8j .. 8j+7\<close>, the first one in the most significant bit, and a pixel beyond the end of the
  row counts as a zero bit; a row of width \<open>w\<close> has \<open>ceil(w / 8)\<close> bytes.
\<close>

definition spec_byte :: "int list \<Rightarrow> nat \<Rightarrow> int" where
  "spec_byte row j =
     sum_list (map (\<lambda>b. if 8 * j + b < length row \<and> row ! (8 * j + b) \<noteq> 0 then 2 ^ (7 - b) else 0)
                [0..<8])"

definition spec_pack_row :: "int list \<Rightarrow> int list" where
  "spec_pack_row row = map (spec_byte row) [0..<(length row + 7) div 8]"

text \<open>The decoder of the numeric codec, as the specification names it: low byte plus 256 times high byte.\<close>

definition compose :: "int list \<Rightarrow> int" where
  "compose bs = (case bs of [lo, hi] \<Rightarrow> lo + 256 * hi | _ \<Rightarrow> 0)"

section \<open>Properties\<close>

lemma js_rem_nonneg: "0 \<le> a \<Longrightarrow> 0 < b \<Longrightarrow> js_rem a b = a mod b"
  by (cases "a = 0") (simp_all add: js_rem_def)

lemma byteSplit_in_range:
  "0 \<le> n \<Longrightarrow> n \<le> 65535 \<Longrightarrow> byteSplit n = Inr [n mod 256, n div 256]"
  by (simp add: byteSplit_def js_assert_def js_rem_nonneg)

lemma byteSplit_negative: "n < 0 \<Longrightarrow> byteSplit n = Inl (AssertionError ''n >= 0'')"
  by (simp add: byteSplit_def js_assert_def)

lemma byteSplit_too_large: "65535 < n \<Longrightarrow> byteSplit n = Inl (AssertionError ''n <= 65535'')"
  by (simp add: byteSplit_def js_assert_def)

lemma js_shl_small: "0 \<le> a \<Longrightarrow> a < 2 ^ 27 \<Longrightarrow> js_shl a 4 = 16 * a"
  unfolding js_shl_def
  by (simp add: signed_take_bit_int_eq_self push_bit_eq_mult)

subsection \<open>The numeric codec\<close>

text \<open>
  C7. For every integer \<open>n\<close> in \<open>[0, 65535]\<close>, \<open>byteSplit n\<close> (the specification's
  \<open>splitWord\<close>) returns the pair (low, high) with low \<open>= n mod 256\<close> and high
  \<open>= floor(n / 256)\<close>, and composing the pair as low + 256 * high gives \<open>n\<close> back. For
  \<open>n\<close> below 0 or above 65535 the call fails on its range assertion and returns no bytes.
\<close>

theorem byteSplit_roundtrip:
  "(0 \<le> n \<and> n \<le> 65535 \<longrightarrow>
      byteSplit n = Inr [n mod 256, n div 256]
      \<and> map_sum id compose (byteSplit n) = Inr n)
   \<and> (n < 0 \<longrightarrow> byteSplit n = Inl (AssertionError ''n >= 0''))
   \<and> (65535 < n \<longrightarrow> byteSplit n = Inl (AssertionError ''n <= 65535''))"
  by (simp add: byteSplit_in_range byteSplit_negative byteSplit_too_large compose_def)

theorem byteSplit_roundtrip_witness:
  "byteSplit 4660 = Inr [52, 18] \<and> map_sum id compose (byteSplit 4660) = Inr 4660
   \<and> byteSplit 65535 = Inr [255, 255] \<and> byteSplit 0 = Inr [0, 0]
   \<and> byteSplit (- 1) = Inl (AssertionError ''n >= 0'')
   \<and> byteSplit 65536 = Inl (AssertionError ''n <= 65535'')"
  using byteSplit_roundtrip [of 4660] byteSplit_roundtrip [of 65535] byteSplit_roundtrip [of 0]
    byteSplit_roundtrip [of "- 1"] byteSplit_roundtrip [of 65536]
  by (simp add: compose_def)

text \<open>
  C8. For every integer \<open>d\<close> in \<open>[-32768, 32767]\<close>, both relative-position encoders
  (\<open>setRelativePrintPosition\<close> and \<open>setRelativeVerticalPrintPositionInPageMode\<close>) emit, after
  their two opcode bytes, the two bytes of \<open>byteSplit (d + 32768)\<close>; composing that
  little-endian pair and subtracting 32768 gives \<open>d\<close> back. For \<open>d\<close> outside the interval
  both encoders fail on their range assertions.
\<close>

theorem relative_position_offset:
  "(- 32768 \<le> d \<and> d \<le> 32767 \<longrightarrow>
      setRelativePrintPosition d = map_sum id (\<lambda>bs. [ESC, 0x5C] @ bs) (byteSplit (d + 32768))
      \<and> setRelativeVerticalPrintPositionInPageMode d
          = map_sum id (\<lambda>bs. [GS, 0x5C] @ bs) (byteSplit (d + 32768))
      \<and> setRelativePrintPosition d = Inr [ESC, 0x5C, (d + 32768) mod 256, (d + 32768) div 256]
      \<and> setRelativeVerticalPrintPositionInPageMode d
          = Inr [GS, 0x5C, (d + 32768) mod 256, (d + 32768) div 256]
      \<and> compose [(d + 32768) mod 256, (d + 32768) div 256] - 32768 = d)
   \<and> (d < - 32768 \<longrightarrow>
        setRelativePrintPosition d = Inl (AssertionError ''d >= -32768'')
        \<and> setRelativeVerticalPrintPositionInPageMode d = Inl (AssertionError ''d >= -32768''))
   \<and> (32767 < d \<longrightarrow>
        setRelativePrintPosition d = Inl (AssertionError ''d <= 32767'')
        \<and> setRelativeVerticalPrintPositionInPageMode d = Inl (AssertionError ''d <= 32767''))"
  by (simp add: setRelativePrintPosition_def setRelativeVerticalPrintPositionInPageMode_def
      js_assert_def spread_def byteSplit_in_range compose_def)

theorem relative_position_offset_witness:
  "setRelativePrintPosition (- 1) = Inr [0x1b, 0x5C, 255, 127]
   \<and> setRelativeVerticalPrintPositionInPageMode (- 1) = Inr [0x1d, 0x5C, 255, 127]
   \<and> compose [255, 127] - 32768 = - 1
   \<and> setRelativePrintPosition (- 32769) = Inl (AssertionError ''d >= -32768'')
   \<and> setRelativeVerticalPrintPositionInPageMode 32768 = Inl (AssertionError ''d <= 32767'')"
  using relative_position_offset [of "- 1"] relative_position_offset [of "- 32769"]
    relative_position_offset [of 32768]
  by (simp add: compose_def byteSplit_in_range)

subsection \<open>Paper cut, character spacing, print modes, character size\<close>

text \<open>
  C6. \<open>cut\<close> with no feed argument, or with feed 0, returns the fixed three-byte default
  cut sequence; \<open>cut n\<close> for every \<open>n\<close> in \<open>[1, 255]\<close> returns the four-byte feed-and-cut
  sequence whose last byte is \<open>n\<close>; in particular \<open>cut 10\<close> ends in 10.
\<close>

theorem cut_variants:
  "fst (cut None) = Inr [GS, 0x56, 1]
   \<and> fst (cut (Some 0)) = Inr [GS, 0x56, 1]
   \<and> (1 \<le> n \<and> n \<le> 255 \<longrightarrow> fst (cut (Some n)) = Inr [GS, 0x56, 65, n])
   \<and> fst (cut (Some 10)) = Inr [GS, 0x56, 65, 10]"
  by (simp add: cut_def dflt_def)

theorem cut_variants_witness:
  "fst (cut (Some 255)) = Inr [0x1d, 0x56, 65, 255] \<and> fst (cut (Some 1)) = Inr [0x1d, 0x56, 65, 1]
   \<and> fst (cut None) = Inr [0x1d, 0x56, 1]"
  using cut_variants [of 255] cut_variants [of 1]
  by simp

text \<open>
  C10. \<open>setRightSideCharacterSpacing\<close> called with no argument always fails: the default
  value 0 of its parameter violates its own assertion \<open>n > 0 && n <= 255\<close>. The accepted
  arguments are exactly the \<open>n\<close> in \<open>[1, 255]\<close>.
\<close>

theorem setRightSideCharacterSpacing_default_rejected:
  "setRightSideCharacterSpacing None = Inl (AssertionError ''n > 0 && n <= 255'')
   \<and> ((\<exists>out. setRightSideCharacterSpacing (Some n) = Inr out) = (1 \<le> n \<and> n \<le> 255))
   \<and> (1 \<le> n \<and> n \<le> 255 \<longrightarrow> setRightSideCharacterSpacing (Some n) = Inr [ESC, 0x20, n])"
  by (auto simp add: setRightSideCharacterSpacing_def dflt_def js_assert_def)

theorem setRightSideCharacterSpacing_default_rejected_witness:
  "setRightSideCharacterSpacing (Some 1) = Inr [0x1b, 0x20, 1]
   \<and> setRightSideCharacterSpacing (Some 255) = Inr [0x1b, 0x20, 255]
   \<and> \<not> (\<exists>out. setRightSideCharacterSpacing (Some 0) = Inr out)
   \<and> \<not> (\<exists>out. setRightSideCharacterSpacing (Some 256) = Inr out)"
  using setRightSideCharacterSpacing_default_rejected [of 1]
    setRightSideCharacterSpacing_default_rejected [of 255]
    setRightSideCharacterSpacing_default_rejected [of 0]
    setRightSideCharacterSpacing_default_rejected [of 256]
  by simp

text \<open>
  C9. \<open>selectPrintModes\<close> returns the same three bytes \<open>[0x1b, 0x20, 0]\<close> for every
  combination of its arguments (given or absent): the flag bits are combined into the
  accumulator 0 with bitwise AND, so the parameter byte stays 0 whatever the font and the
  emphasised, double-height, double-width and underline flags are.
\<close>

theorem selectPrintModes_constant:
  "selectPrintModes font emphasised doubleHeight doubleWidth underline = Inr [0x1b, 0x20, 0]"
  by (simp add: selectPrintModes_def js_and_def ToInt32_def Let_def)

text \<open>
  What \<open>selectCharacterSize\<close> computes: for width \<open>w\<close> and height \<open>h\<close> in \<open>[1, 8]\<close> the
  parameter is \<open>(16 * (w - 1) << 4) + 16 * (h - 1) = 256 * (w - 1) + 16 * (h - 1)\<close>, and a
  width or height outside \<open>[1, 8]\<close> fails an assertion.
\<close>

lemma selectCharacterSize_accepted:
  "1 \<le> w \<Longrightarrow> w \<le> 8 \<Longrightarrow> 1 \<le> h \<Longrightarrow> h \<le> 8 \<Longrightarrow>
   selectCharacterSize (Some w) (Some h) = Inr [GS, 0x21, 256 * (w - 1) + 16 * (h - 1)]"
  by (simp add: selectCharacterSize_def dflt_def js_assert_def js_shl_small)

lemma selectCharacterSize_rejected:
  "w < 1 \<or> 8 < w \<or> h < 1 \<or> 8 < h \<Longrightarrow> \<exists>e. selectCharacterSize (Some w) (Some h) = Inl e"
  by (auto simp add: selectCharacterSize_def dflt_def js_assert_def)

text \<open>
  C1. The claim is that \<open>selectCharacterSize(2, 2)\<close> returns a command whose single
  parameter byte is \<open>0x11\<close>, the width and height packed into the high and low nibbles of
  one byte. The code returns the parameter 272 there: it scales each value by 16 and then
  shifts the width by four more bits, so the result is \<open>0x110\<close> and no longer a byte.
\<close>

theorem selectCharacterSize_2_2:
  "selectCharacterSize (Some 2) (Some 2) = Inr [0x1d, 0x21, 272]
   \<and> selectCharacterSize (Some 2) (Some 2) \<noteq> Inr [0x1d, 0x21, 0x11]"
  by (simp add: selectCharacterSize_def dflt_def js_assert_def js_shl_def)

subsection \<open>The barcode encoder\<close>

lemma digit_codes:
  "list_all (\<lambda>charCode. charCode \<ge> 48 \<and> charCode \<le> 57) (splitToCharCodes data)
   = (\<forall>c \<in> set data. 0x30 \<le> c \<and> c \<le> 0x39)"
  by (simp add: splitToCharCodes_def list_all_iff word_le_def)

text \<open>
  C3. \<open>printBarcodeUpcA\<close> succeeds exactly when its payload has 11 characters and each
  one is an ASCII digit (code units \<open>0x30\<close> to \<open>0x39\<close>); it then returns the opcode, the
  symbology selector, the length byte 11 and the 11 character codes as they are. A payload
  of another length fails the length assertion, and a payload of 11 characters with a
  non-digit fails the character-class assertion; so do \<open>"1234567890"\<close> (10 digits) and
  \<open>"1234567890a"\<close>.
\<close>

theorem printBarcodeUpcA_validation:
  "(length data = 11 \<and> (\<forall>c \<in> set data. 0x30 \<le> c \<and> c \<le> 0x39) \<longrightarrow>
      printBarcodeUpcA data = Inr ([GS, k_byte, 65, 11] @ map uint data))
   \<and> (length data \<noteq> 11 \<longrightarrow> printBarcodeUpcA data = Inl (AssertionError ''data.length == 11''))
   \<and> (length data = 11 \<and> \<not> (\<forall>c \<in> set data. 0x30 \<le> c \<and> c \<le> 0x39) \<longrightarrow>
        printBarcodeUpcA data
        = Inl (AssertionError ''codes.every(charCode => charCode >= 48 && charCode <= 57)''))
   \<and> printBarcodeUpcA (utf16 ''12345678901'')
        = Inr [0x1d, 0x6b, 65, 11, 49, 50, 51, 52, 53, 54, 55, 56, 57, 48, 49]
   \<and> printBarcodeUpcA (utf16 ''1234567890'') = Inl (AssertionError ''data.length == 11'')
   \<and> printBarcodeUpcA (utf16 ''1234567890a'')
        = Inl (AssertionError ''codes.every(charCode => charCode >= 48 && charCode <= 57)'')
   \<and> ((\<exists>out. printBarcodeUpcA data = Inr out)
        = (length data = 11 \<and> (\<forall>c \<in> set data. 0x30 \<le> c \<and> c \<le> 0x39)))"
proof -
  have ok: "length data = 11 \<and> (\<forall>c \<in> set data. 0x30 \<le> c \<and> c \<le> 0x39) \<longrightarrow>
      printBarcodeUpcA data = Inr ([GS, k_byte, 65, 11] @ map uint data)"
    using digit_codes [of data]
    by (simp add: printBarcodeUpcA_def js_assert_def Let_def) (simp add: splitToCharCodes_def)
  have len: "length data \<noteq> 11 \<longrightarrow> printBarcodeUpcA data = Inl (AssertionError ''data.length == 11'')"
    by (simp add: printBarcodeUpcA_def js_assert_def)
  have cls: "length data = 11 \<and> \<not> (\<forall>c \<in> set data. 0x30 \<le> c \<and> c \<le> 0x39) \<longrightarrow>
        printBarcodeUpcA data
        = Inl (AssertionError ''codes.every(charCode => charCode >= 48 && charCode <= 57)'')"
    using digit_codes [of data]
    by (simp add: printBarcodeUpcA_def js_assert_def Let_def)
  have e1: "printBarcodeUpcA (utf16 ''12345678901'')
        = Inr [0x1d, 0x6b, 65, 11, 49, 50, 51, 52, 53, 54, 55, 56, 57, 48, 49]"
    by (simp add: printBarcodeUpcA_def js_assert_def utf16_def splitToCharCodes_def)
  have e2: "printBarcodeUpcA (utf16 ''1234567890'') = Inl (AssertionError ''data.length == 11'')"
    by (simp add: printBarcodeUpcA_def js_assert_def utf16_def)
  have e3: "printBarcodeUpcA (utf16 ''1234567890a'')
        = Inl (AssertionError ''codes.every(charCode => charCode >= 48 && charCode <= 57)'')"
    by (simp add: printBarcodeUpcA_def js_assert_def utf16_def splitToCharCodes_def)
  have exactly: "(\<exists>out. printBarcodeUpcA data = Inr out)
        = (length data = 11 \<and> (\<forall>c \<in> set data. 0x30 \<le> c \<and> c \<le> 0x39))"
    using ok len cls by (cases "length data = 11") auto
  from ok len cls e1 e2 e3 exactly show ?thesis by blast
qed

theorem printBarcodeUpcA_validation_witness:
  "printBarcodeUpcA [0x30, 0x31, 0x32, 0x33, 0x34, 0x35, 0x36, 0x37, 0x38, 0x39, 0x30]
     = Inr [0x1d, 0x6b, 65, 11, 48, 49, 50, 51, 52, 53, 54, 55, 56, 57, 48]
   \<and> printBarcodeUpcA [0x30, 0x31] = Inl (AssertionError ''data.length == 11'')
   \<and> printBarcodeUpcA [0x30, 0x31, 0x32, 0x33, 0x34, 0x35, 0x36, 0x37, 0x38, 0x39, 0xFF10]
     = Inl (AssertionError ''codes.every(charCode => charCode >= 48 && charCode <= 57)'')"
  using printBarcodeUpcA_validation [of "[0x30, 0x31, 0x32, 0x33, 0x34, 0x35, 0x36, 0x37, 0x38, 0x39, 0x30]"]
    printBarcodeUpcA_validation [of "[0x30, 0x31]"]
    printBarcodeUpcA_validation [of "[0x30, 0x31, 0x32, 0x33, 0x34, 0x35, 0x36, 0x37, 0x38, 0x39, 0xFF10]"]
  by simp

subsection \<open>The bit-image mode encoder\<close>

lemma js_rem_length_3: "(js_rem (int (length xs)) 3 = 0) = (length xs mod 3 = 0)"
proof -
  have "js_rem (int (length xs)) 3 = int (length xs) mod 3"
    by (rule js_rem_nonneg) simp_all
  also have "\<dots> = int (length xs mod 3)"
    by (simp add: zmod_int)
  finally show ?thesis by simp
qed

lemma spread_Inr:
  "(spread pre (byteSplit n) post = Inr out)
   = (0 \<le> n \<and> n \<le> 65535 \<and> out = pre @ [n mod 256, n div 256] @ post)"
proof (cases "0 \<le> n \<and> n \<le> 65535")
  case True
  then show ?thesis by (auto simp add: spread_def byteSplit_in_range)
next
  case False
  then have "n < 0 \<or> 65535 < n" by auto
  then show ?thesis
    by (auto simp add: spread_def byteSplit_negative byteSplit_too_large)
qed

lemma selectBitImageMode_Inr:
  "(selectBitImageMode vda hda strip = Inr out) =
     ((dflt 8 vda = 8 \<or> dflt 8 vda = 24 \<and> length strip mod 3 = 0)
      \<and> int (length strip) div (if dflt 8 vda = 8 then 1 else 3) \<le> 65535
      \<and> out = [ESC, 0x2a, (if dflt 8 vda = 8 then 0 else 32)
                           + (if dflt ''single'' hda = ''single'' then 0 else 1),
                (int (length strip) div (if dflt 8 vda = 8 then 1 else 3)) mod 256,
                (int (length strip) div (if dflt 8 vda = 8 then 1 else 3)) div 256] @ strip)"
  by (auto simp add: selectBitImageMode_def Let_def js_assert_def js_rem_length_3 spread_Inr)

lemma selectBitImageMode_defaults:
  "selectBitImageMode None None strip = selectBitImageMode (Some 8) (Some ''single'') strip"
  by (simp add: selectBitImageMode_def dflt_def)

text \<open>
  C5. Whenever \<open>selectBitImageMode\<close> accepts a strip, the vertical density is 8 or 24, a
  density of 24 comes with a strip length divisible by 3, and the result is the opcode, the
  mode byte \<open>(density == 24 ? 32 : 0) + (horizontalDensity == double ? 1 : 0)\<close>, the column
  count (strip length divided by 1 for density 8, by 3 for density 24) as two bytes, low
  byte first, and then the strip as it is. Another density fails, and so does a density of
  24 with a length that 3 does not divide. The horizontal density is one of the two names
  of its type, \<open>single\<close> and \<open>double\<close>. The call succeeds for an allowed density and length
  as soon as the column count fits in 16 bits.
\<close>

theorem selectBitImageMode_encoding:
  "(selectBitImageMode (Some density) (Some horizontalDensity) strip = Inr out
      \<and> (horizontalDensity = ''single'' \<or> horizontalDensity = ''double'') \<longrightarrow>
        (density = 8 \<or> density = 24)
        \<and> (density = 24 \<longrightarrow> length strip mod 3 = 0)
        \<and> out = [ESC, 0x2a,
                 (if density = 24 then 32 else 0) + (if horizontalDensity = ''double'' then 1 else 0),
                 (int (length strip) div (if density = 8 then 1 else 3)) mod 256,
                 (int (length strip) div (if density = 8 then 1 else 3)) div 256] @ strip)
   \<and> (density \<noteq> 8 \<and> density \<noteq> 24 \<longrightarrow>
        selectBitImageMode (Some density) (Some horizontalDensity) strip
        = Inl (AssertionError ''verticalDensity == 8 || verticalDensity == 24''))
   \<and> (density = 24 \<and> length strip mod 3 \<noteq> 0 \<longrightarrow>
        selectBitImageMode (Some density) (Some horizontalDensity) strip
        = Inl (AssertionError ''data.length % 3 == 0''))
   \<and> ((density = 8 \<or> density = 24 \<and> length strip mod 3 = 0)
        \<and> int (length strip) div (if density = 8 then 1 else 3) \<le> 65535 \<longrightarrow>
        (\<exists>bytes. selectBitImageMode (Some density) (Some horizontalDensity) strip = Inr bytes))"
proof -
  have accepted: "selectBitImageMode (Some density) (Some horizontalDensity) strip = Inr out
      \<and> (horizontalDensity = ''single'' \<or> horizontalDensity = ''double'') \<longrightarrow>
        (density = 8 \<or> density = 24)
        \<and> (density = 24 \<longrightarrow> length strip mod 3 = 0)
        \<and> out = [ESC, 0x2a,
                 (if density = 24 then 32 else 0) + (if horizontalDensity = ''double'' then 1 else 0),
                 (int (length strip) div (if density = 8 then 1 else 3)) mod 256,
                 (int (length strip) div (if density = 8 then 1 else 3)) div 256] @ strip"
    by (auto simp add: selectBitImageMode_Inr dflt_def)
  have density: "density \<noteq> 8 \<and> density \<noteq> 24 \<longrightarrow>
        selectBitImageMode (Some density) (Some horizontalDensity) strip
        = Inl (AssertionError ''verticalDensity == 8 || verticalDensity == 24'')"
    by (simp add: selectBitImageMode_def dflt_def js_assert_def)
  have divisible: "density = 24 \<and> length strip mod 3 \<noteq> 0 \<longrightarrow>
        selectBitImageMode (Some density) (Some horizontalDensity) strip
        = Inl (AssertionError ''data.length % 3 == 0'')"
    by (simp add: selectBitImageMode_def dflt_def js_assert_def js_rem_length_3)
  have succeeds: "(density = 8 \<or> density = 24 \<and> length strip mod 3 = 0)
        \<and> int (length strip) div (if density = 8 then 1 else 3) \<le> 65535 \<longrightarrow>
        (\<exists>bytes. selectBitImageMode (Some density) (Some horizontalDensity) strip = Inr bytes)"
    by (simp add: selectBitImageMode_Inr dflt_def)
  from accepted density divisible succeeds show ?thesis by blast
qed

theorem selectBitImageMode_encoding_witness:
  "selectBitImageMode (Some 24) (Some ''double'') [1, 2, 3, 4, 5, 6]
     = Inr [0x1b, 0x2a, 33, 2, 0, 1, 2, 3, 4, 5, 6]
   \<and> selectBitImageMode (Some 8) (Some ''single'') [9, 8, 7]
     = Inr [0x1b, 0x2a, 0, 3, 0, 9, 8, 7]
   \<and> selectBitImageMode (Some 24) (Some ''single'') [1, 2, 3, 4]
     = Inl (AssertionError ''data.length % 3 == 0'')
   \<and> selectBitImageMode (Some 16) (Some ''single'') [1, 2, 3]
     = Inl (AssertionError ''verticalDensity == 8 || verticalDensity == 24'')"
  using selectBitImageMode_encoding [of 24 "''double''" "[1, 2, 3, 4, 5, 6]"
      "[0x1b, 0x2a, 33, 2, 0, 1, 2, 3, 4, 5, 6]"]
    selectBitImageMode_encoding [of 8 "''single''" "[9, 8, 7]" "[0x1b, 0x2a, 0, 3, 0, 9, 8, 7]"]
    selectBitImageMode_encoding [of 24 "''single''" "[1, 2, 3, 4]"]
    selectBitImageMode_encoding [of 16 "''single''" "[1, 2, 3]"]
  by (simp add: selectBitImageMode_Inr dflt_def)

subsection \<open>Encoders of an enumerated choice\<close>

lemma str_includes_self: "str_includes s s"
  by (simp add: str_includes_def)

text \<open>
  \<open>selectJustification\<close> asserts \<open>justification.includes(justification)\<close>, which holds of
  every string, and then takes the index in the list of the three names: a name outside
  the list gets the parameter \<open>-1\<close>.
\<close>

lemma selectJustification_unknown:
  "selectJustification (Some ''diagonal'') = Inr [0x1b, 0x61, - 1]"
  by (simp add: selectJustification_def dflt_def js_assert_def str_includes_self indexOf_def)

text \<open>
  C2, as stated, fails: the encoders that look the name up in a table (font, character code
  table, international character set, HRI print position) have no validation at run time.
  A name outside the table does not fail; the lookup gives \<open>undefined\<close>, which is emitted
  as the parameter.
\<close>

theorem enumerated_choice_unvalidated:
  "selectInternationalCharacterSet ''mars'' = Inr [Num 0x1b, Num 0x52, Undefined]
   \<and> selectCharacterCodeTable ''utf-8'' = Inr [Num 0x1b, Num 0x74, Undefined]
   \<and> selectFont ''C'' = Inr [Num 0x1b, Num 0x4d, Undefined]
   \<and> selectFontForBarcodeHriCharacters ''C'' = Inr [Num 0x1d, Num 0x66, Undefined]
   \<and> selectPrintPositionOfBarcodeHriCharacters ''left'' = Inr [Num 0x1d, Num 0x48, Undefined]"
  by (simp add: selectInternationalCharacterSet_def internationalCharacterSetMap_def
      selectCharacterCodeTable_def characterCodeTableMap_def selectFont_def fontMap_def
      selectFontForBarcodeHriCharacters_def
      selectPrintPositionOfBarcodeHriCharacters_def hriPositionMap_def js_get_def)

text \<open>
  C2, amended. Each encoder of an enumerated choice (justification, font, character code
  table, international character set, HRI print position) called with a name of its closed
  table returns the command with that table's wire value. The encoders that look the name
  up in a table never fail: names outside the table are excluded by the parameter's type
  only, not by a check at run time.
\<close>

theorem enumerated_choice_in_table:
  "(map_of fontMap font = Some fontValue \<longrightarrow>
      selectFont font = Inr [Num ESC, Num 0x4d, Num fontValue]
      \<and> selectFontForBarcodeHriCharacters font = Inr [Num GS, Num 0x66, Num fontValue])
   \<and> (map_of characterCodeTableMap table = Some tableValue \<longrightarrow>
        selectCharacterCodeTable table = Inr [Num ESC, Num 0x74, Num tableValue])
   \<and> (map_of internationalCharacterSetMap characterSet = Some setValue \<longrightarrow>
        selectInternationalCharacterSet characterSet = Inr [Num ESC, Num 0x52, Num setValue])
   \<and> (map_of hriPositionMap position = Some positionValue \<longrightarrow>
        selectPrintPositionOfBarcodeHriCharacters position
        = Inr [Num GS, Num 0x48, Num positionValue])
   \<and> selectJustification (Some ''left'') = Inr [ESC, 0x61, 0]
   \<and> selectJustification (Some ''centered'') = Inr [ESC, 0x61, 1]
   \<and> selectJustification (Some ''right'') = Inr [ESC, 0x61, 2]
   \<and> selectJustification None = Inr [ESC, 0x61, 0]
   \<and> (\<exists>out. selectFont font = Inr out)
   \<and> (\<exists>out. selectFontForBarcodeHriCharacters font = Inr out)
   \<and> (\<exists>out. selectCharacterCodeTable table = Inr out)
   \<and> (\<exists>out. selectInternationalCharacterSet characterSet = Inr out)
   \<and> (\<exists>out. selectPrintPositionOfBarcodeHriCharacters position = Inr out)"
  by (simp add: selectInternationalCharacterSet_def
      selectCharacterCodeTable_def selectFont_def
      selectFontForBarcodeHriCharacters_def
      selectPrintPositionOfBarcodeHriCharacters_def js_get_def
      selectJustification_def dflt_def js_assert_def str_includes_self indexOf_def)

theorem enumerated_choice_in_table_witness:
  "selectFont ''B'' = Inr [Num 0x1b, Num 0x4d, Num 1]
   \<and> selectFontForBarcodeHriCharacters ''B'' = Inr [Num 0x1d, Num 0x66, Num 1]
   \<and> selectCharacterCodeTable ''wpc1252'' = Inr [Num 0x1b, Num 0x74, Num 16]
   \<and> selectInternationalCharacterSet ''china'' = Inr [Num 0x1b, Num 0x52, Num 15]
   \<and> selectPrintPositionOfBarcodeHriCharacters ''both'' = Inr [Num 0x1d, Num 0x48, Num 3]"
  using enumerated_choice_in_table [where font = "''B''" and fontValue = 1]
    enumerated_choice_in_table [where table = "''wpc1252''" and tableValue = 16]
    enumerated_choice_in_table [where characterSet = "''china''" and setValue = 15]
    enumerated_choice_in_table [where position = "''both''" and positionValue = 3]
  by (simp add: fontMap_def characterCodeTableMap_def internationalCharacterSetMap_def
      hriPositionMap_def)

subsection \<open>The raster image encoder\<close>

lemma ceil_div_8: "ceil_div (int n) 8 = int ((n + 7) div 8)"
  unfolding ceil_div_def by (simp add: zdiv_int)

text \<open>The binary string of a chunk is one character per pixel.\<close>

lemma join_bits_pixels:
  "join_bits (map (\<lambda>x. if x \<noteq> 0 then 1 else 0) c)
   = map (\<lambda>x. if x \<noteq> 0 then CHR ''1'' else CHR ''0'') c"
  by (induction c) (simp_all add: join_bits_def)

lemma binary_string:
  "padEnd 8 (CHR ''0'') (join_bits (map (\<lambda>x. if x \<noteq> 0 then 1 else 0) c))
   = map (\<lambda>b. if b then CHR ''1'' else CHR ''0'')
       (map (\<lambda>x. x \<noteq> 0) c @ replicate (8 - length c) False)"
  by (simp add: padEnd_def join_bits_pixels map_replicate_const)

lemma parseInt2_bits:
  "parseInt2 (map (\<lambda>b. if b then CHR ''1'' else CHR ''0'') bs)
   = foldl (\<lambda>acc b. 2 * acc + (if b then 1 else 0)) 0 bs"
proof -
  have all: "takeWhile (\<lambda>c. c = CHR ''0'' \<or> c = CHR ''1'')
               (map (\<lambda>b. if b then CHR ''1'' else CHR ''0'') bs)
             = map (\<lambda>b. if b then CHR ''1'' else CHR ''0'') bs"
    by (rule takeWhile_eq_all_conv [THEN iffD2]) auto
  have fold: "foldl (\<lambda>acc c. 2 * acc + (if c = CHR ''1'' then 1 else 0)) a
          (map (\<lambda>b. if b then CHR ''1'' else CHR ''0'') bs)
        = foldl (\<lambda>acc b. 2 * acc + (if b then 1 else 0)) (a::int) bs" for a
    by (induction bs arbitrary: a) simp_all
  show ?thesis
    unfolding parseInt2_def all by (rule fold)
qed

lemma foldl_bits_msb_first:
  "foldl (\<lambda>acc b. 2 * acc + (if b then 1 else 0)) (a::int) bs
   = a * 2 ^ length bs
     + sum_list (map (\<lambda>i. if bs ! i then 2 ^ (length bs - Suc i) else 0) [0..<length bs])"
proof (induction bs arbitrary: a)
  case Nil
  then show ?case by simp
next
  case (Cons b bs)
  have idx: "[0..<length (b # bs)] = 0 # map Suc [0..<length bs]"
    by (simp add: upt_conv_Cons map_Suc_upt del: upt_Suc)
  have "foldl (\<lambda>acc b. 2 * acc + (if b then 1 else 0)) a (b # bs)
        = (2 * a + (if b then 1 else 0)) * 2 ^ length bs
          + sum_list (map (\<lambda>i. if bs ! i then 2 ^ (length bs - Suc i) else 0) [0..<length bs])"
    using Cons.IH [of "2 * a + (if b then 1 else 0)"] by simp
  also have "\<dots> = a * 2 ^ length (b # bs)
          + sum_list (map (\<lambda>i. if (b # bs) ! i then 2 ^ (length (b # bs) - Suc i) else 0)
                       (0 # map Suc [0..<length bs]))"
    by (simp add: algebra_simps comp_def cong: if_cong)
  finally show ?case
    unfolding idx .
qed

lemma chunk_byte:
  assumes "8 * j < length row"
  shows "parseInt2 (padEnd 8 (CHR ''0'')
           (join_bits (map (\<lambda>x. if x \<noteq> 0 then 1 else 0) (slice row (8 * j) (8 * j + 8)))))
         = spec_byte row j"
proof -
  define c where "c = slice row (8 * j) (8 * j + 8)"
  define bits where "bits = map (\<lambda>x. x \<noteq> 0) c @ replicate (8 - length c) False"
  have c: "c = take 8 (drop (8 * j) row)"
    by (simp add: c_def slice_def)
  have len_c: "length c = min 8 (length row - 8 * j)"
    by (simp add: c min.commute)
  have len: "length bits = 8"
    by (simp add: bits_def len_c)
  have nth: "bits ! i = (8 * j + i < length row \<and> row ! (8 * j + i) \<noteq> 0)" if "i < 8" for i
  proof (cases "i < length c")
    case True
    with that have "8 * j + i < length row" by (simp add: len_c)
    with True show ?thesis by (simp add: bits_def nth_append c)
  next
    case False
    with that have "\<not> 8 * j + i < length row" by (simp add: len_c)
    with False that show ?thesis by (simp add: bits_def nth_append)
  qed
  have "parseInt2 (padEnd 8 (CHR ''0'') (join_bits (map (\<lambda>x. if x \<noteq> 0 then 1 else 0) c)))
        = sum_list (map (\<lambda>i. if bits ! i then 2 ^ (length bits - Suc i) else 0) [0..<length bits])"
    unfolding binary_string parseInt2_bits bits_def [symmetric]
    by (simp add: foldl_bits_msb_first)
  also have "\<dots> = sum_list (map (\<lambda>i. if bits ! i then 2 ^ (7 - i) else 0) [0..<8])"
    unfolding len by (simp cong: if_cong)
  also have "\<dots> = spec_byte row j"
    unfolding spec_byte_def
    by (rule arg_cong [where f = sum_list], rule map_cong) (simp_all add: nth)
  finally show ?thesis
    unfolding c_def .
qed

lemma row_loop_spec:
  "row_loop row (8 * j) a = a @ map (spec_byte row) [j..<(length row + 7) div 8]"
proof (induction "(length row + 7) div 8 - j" arbitrary: j a)
  case 0
  then have "\<not> 8 * j < length row" by linarith
  moreover from 0 have "[j..<(length row + 7) div 8] = []" by simp
  ultimately show ?case
    by (subst row_loop.simps) simp
next
  case (Suc k)
  then have lt: "8 * j < length row" and j: "j < (length row + 7) div 8" by linarith+
  have k: "k = (length row + 7) div 8 - Suc j"
    using Suc.hyps(2) by simp
  have next_i: "8 * j + 8 = 8 * Suc j"
    by simp
  have "row_loop row (8 * j) a = row_loop row (8 * j + 8) (a @ [spec_byte row j])"
    using lt by (subst row_loop.simps) (simp add: chunk_byte Let_def)
  then have "row_loop row (8 * j) a = row_loop row (8 * Suc j) (a @ [spec_byte row j])"
    unfolding next_i .
  also have "\<dots> = (a @ [spec_byte row j]) @ map (spec_byte row) [Suc j..<(length row + 7) div 8]"
    by (rule Suc.hyps(1) [OF k])
  also have "\<dots> = a @ map (spec_byte row) [j..<(length row + 7) div 8]"
    using j by (simp add: upt_conv_Cons)
  finally show ?case .
qed

lemma pack_rows_spec: "pack_rows data = concat (map spec_pack_row data)"
proof -
  have "foldl (\<lambda>a row. row_loop row 0 a) acc data = acc @ concat (map spec_pack_row data)" for acc
  proof (induction data arbitrary: acc)
    case Nil
    then show ?case by simp
  next
    case (Cons row data)
    have "row_loop row 0 acc = acc @ spec_pack_row row"
      using row_loop_spec [of row 0 acc] by (simp add: spec_pack_row_def)
    with Cons show ?case by simp
  qed
  from this [of "[]"] show ?thesis by (simp add: pack_rows_def)
qed

lemma printRasterBitImage_Cons:
  assumes h: "length rest < 65535"
    and w: "1 \<le> length data0" "length data0 \<le> 65535"
    and rect: "\<forall>row \<in> set rest. length row = length data0"
  shows "printRasterBitImage (data0 # rest) verticalScale horizontalScale =
           Inr ([GS, 0x76, 0x30, (dflt 1 verticalScale - 1) * 2 + (dflt 1 horizontalScale - 1),
                 int ((length data0 + 7) div 8) mod 256, int ((length data0 + 7) div 8) div 256,
                 (1 + int (length rest)) mod 256, (1 + int (length rest)) div 256]
                @ concat (map spec_pack_row (data0 # rest)))"
proof -
  have every: "list_all (\<lambda>line. length line = length data0) rest"
    using rect by (simp add: list_all_iff)
  have wb: "byteSplit (ceil_div (int (length data0)) 8)
            = Inr [int ((length data0 + 7) div 8) mod 256, int ((length data0 + 7) div 8) div 256]"
    unfolding ceil_div_8 using w by (intro byteSplit_in_range) simp_all
  have hd: "byteSplit (1 + int (length rest))
            = Inr [(1 + int (length rest)) mod 256, (1 + int (length rest)) div 256]"
    using h by (intro byteSplit_in_range) simp_all
  show ?thesis
    using h w every
    by (simp add: printRasterBitImage_def Let_def js_assert_def wb hd spread_def pack_rows_spec)
qed

lemma printRasterBitImage_rectangular:
  assumes h: "1 \<le> length data" "length data \<le> 65535"
    and w: "1 \<le> w" "w \<le> 65535"
    and rect: "\<forall>row \<in> set data. length row = w"
  shows "printRasterBitImage data verticalScale horizontalScale =
           Inr ([GS, 0x76, 0x30, (dflt 1 verticalScale - 1) * 2 + (dflt 1 horizontalScale - 1)]
                @ [int ((w + 7) div 8) mod 256, int ((w + 7) div 8) div 256]
                @ [int (length data) mod 256, int (length data) div 256]
                @ concat (map spec_pack_row data))"
proof -
  from h obtain data0 rest where data: "data = data0 # rest"
    by (cases data) auto
  with rect have w0: "length data0 = w" by simp
  have "printRasterBitImage (data0 # rest) verticalScale horizontalScale =
           Inr ([GS, 0x76, 0x30, (dflt 1 verticalScale - 1) * 2 + (dflt 1 horizontalScale - 1),
                 int ((length data0 + 7) div 8) mod 256, int ((length data0 + 7) div 8) div 256,
                 (1 + int (length rest)) mod 256, (1 + int (length rest)) div 256]
                @ concat (map spec_pack_row (data0 # rest)))"
  proof (rule printRasterBitImage_Cons)
    show "length rest < 65535" using h by (simp add: data)
    show "1 \<le> length data0" "length data0 \<le> 65535" using w by (simp_all add: w0)
    show "\<forall>row \<in> set rest. length row = length data0" using rect by (simp add: data w0)
  qed
  then show ?thesis
    by (simp add: data w0)
qed

lemma upt_8: "[0..<8] = [0, 1, 2, 3, 4, 5, 6, 7]"
  by (simp add: upt_rec)

lemma spec_pack_row_9: "spec_pack_row [1, 1, 1, 1, 1, 1, 1, 1, 1] = [0xFF, 0x80]"
  by (simp add: spec_pack_row_def spec_byte_def upt_8 upt_rec)

text \<open>
  C4. For every rectangular pixel grid whose width and height are in \<open>[1, 65535]\<close>,
  \<open>printRasterBitImage\<close> returns its header (opcode, scale byte, width in bytes and height
  in dots, each as two bytes, low byte first) followed by the rows packed as the
  specification says: eight horizontal pixels per byte, the first pixel in the most
  significant bit, the last byte of a row padded with zero bits when the width is not a
  multiple of 8. On the grid of 9 by 2 printing pixels the width in bytes is 2, the height
  in dots is 2 and each row is packed as \<open>[0xFF, 0x80]\<close>.
\<close>

theorem printRasterBitImage_packing:
  "(1 \<le> length data \<and> length data \<le> 65535 \<and> 1 \<le> w \<and> w \<le> 65535
      \<and> (\<forall>row \<in> set data. length row = w) \<longrightarrow>
      printRasterBitImage data verticalScale horizontalScale =
        Inr ([GS, 0x76, 0x30, (dflt 1 verticalScale - 1) * 2 + (dflt 1 horizontalScale - 1)]
             @ [int ((w + 7) div 8) mod 256, int ((w + 7) div 8) div 256]
             @ [int (length data) mod 256, int (length data) div 256]
             @ concat (map spec_pack_row data)))
   \<and> spec_pack_row [1, 1, 1, 1, 1, 1, 1, 1, 1] = [0xFF, 0x80]
   \<and> printRasterBitImage [[1, 1, 1, 1, 1, 1, 1, 1, 1], [1, 1, 1, 1, 1, 1, 1, 1, 1]] None None
       = Inr [0x1d, 0x76, 0x30, 0, 2, 0, 2, 0, 0xFF, 0x80, 0xFF, 0x80]"
proof -
  have "printRasterBitImage [[1, 1, 1, 1, 1, 1, 1, 1, 1], [1, 1, 1, 1, 1, 1, 1, 1, 1]] None None
       = Inr [0x1d, 0x76, 0x30, 0, 2, 0, 2, 0, 0xFF, 0x80, 0xFF, 0x80]"
    by (subst printRasterBitImage_rectangular [where w = 9]) (simp_all add: spec_pack_row_9 dflt_def)
  then show ?thesis
    using printRasterBitImage_rectangular [of data w verticalScale horizontalScale] spec_pack_row_9
    by blast
qed

theorem printRasterBitImage_packing_witness:
  "printRasterBitImage [[1, 0, 1], [0, 7, 0]] (Some 2) (Some 1)
     = Inr [0x1d, 0x76, 0x30, 2, 1, 0, 2, 0, 0xA0, 0x40]"
  using printRasterBitImage_packing [of "[[1, 0, 1], [0, 7, 0]]" 3 "Some 2" "Some 1"]
  by (simp add: spec_pack_row_def spec_byte_def upt_8 upt_rec dflt_def)

end
